theory Spec2Isabelle
  imports Main "HOL-Library.AList"
begin

section \<open>Python string primitives\<close>

text \<open>
  A Python \<open>str\<close> is modelled as a \<open>string\<close>; one \<open>char\<close> stands for one code point
  below 256. The functions below follow the built-in methods the sources call.
\<close>

definition startswith :: "string \<Rightarrow> string \<Rightarrow> bool" where
  "startswith s pre = (take (length pre) s = pre)"

definition endswith :: "string \<Rightarrow> string \<Rightarrow> bool" where
  "endswith s suf = (length suf \<le> length s \<and> drop (length s - length suf) s = suf)"

text \<open>\<open>sub in s\<close> for strings.\<close>

fun contains :: "string \<Rightarrow> string \<Rightarrow> bool" where
  "contains [] sub = (sub = [])"
| "contains (x # xs) sub = (startswith (x # xs) sub \<or> contains xs sub)"

text \<open>\<open>s.split(c)\<close> for a one-character separator: every occurrence splits.\<close>

fun py_split :: "char \<Rightarrow> string \<Rightarrow> string list" where
  "py_split c [] = [[]]"
| "py_split c (x # xs) =
     (if x = c then [] # py_split c xs
      else (case py_split c xs of w # ws \<Rightarrow> (x # w) # ws | [] \<Rightarrow> [[x]]))"

text \<open>\<open>'/'.join(comps)\<close>.\<close>

fun join_sep :: "string list \<Rightarrow> string" where
  "join_sep [] = []"
| "join_sep [x] = x"
| "join_sep (x # y # ys) = x @ CHR ''/'' # join_sep (y # ys)"

section \<open>posixpath: the functions of \<open>os.path\<close> that \<open>os_utils.py\<close> calls\<close>

text \<open>
  The sources run with \<open>os.name != 'nt'\<close> here, so \<open>os.path\<close> is \<open>posixpath\<close>.
  \<open>normpath\<close> keeps one or exactly two leading slashes, drops empty and \<open>.\<close>
  components and resolves \<open>..\<close> against the component before it.
\<close>

definition norm_comp :: "nat \<Rightarrow> string list \<Rightarrow> string \<Rightarrow> string list" where
  "norm_comp initial_slashes new_comps cmp =
     (if cmp = [] \<or> cmp = ''.'' then new_comps
      else if cmp \<noteq> ''..'' \<or> (initial_slashes = 0 \<and> new_comps = [])
              \<or> (new_comps \<noteq> [] \<and> last new_comps = ''..'')
        then new_comps @ [cmp]
      else if new_comps \<noteq> [] then butlast new_comps
      else new_comps)"

definition initial_slashes_of :: "string \<Rightarrow> nat" where
  "initial_slashes_of path =
     (if startswith path ''/''
      then (if startswith path ''//'' \<and> \<not> startswith path ''///'' then 2 else 1)
      else 0)"

definition normpath :: "string \<Rightarrow> string" where
  "normpath path =
     (if path = [] then ''.''
      else
        let initial_slashes = initial_slashes_of path;
            comps = foldl (norm_comp initial_slashes) [] (py_split CHR ''/'' path);
            p = replicate initial_slashes CHR ''/'' @ join_sep comps
        in if p = [] then ''.'' else p)"

text \<open>\<open>p.rfind('/') + 1\<close>: the length of the part up to and including the last slash.\<close>

definition rfind_end :: "string \<Rightarrow> nat" where
  "rfind_end p = length (dropWhile (\<lambda>c. c \<noteq> CHR ''/'') (rev p))"

definition rstrip_sep :: "string \<Rightarrow> string" where
  "rstrip_sep s = rev (dropWhile (\<lambda>c. c = CHR ''/'') (rev s))"

definition strip_head :: "string \<Rightarrow> string" where
  "strip_head head =
     (if head \<noteq> [] \<and> head \<noteq> replicate (length head) CHR ''/'' then rstrip_sep head
      else head)"

definition posix_split :: "string \<Rightarrow> string \<times> string" where
  "posix_split p = (let i = rfind_end p in (strip_head (take i p), drop i p))"

definition dirname :: "string \<Rightarrow> string" where
  "dirname p = strip_head (take (rfind_end p) p)"

definition basename :: "string \<Rightarrow> string" where
  "basename p = drop (rfind_end p) p"

definition posix_join :: "string \<Rightarrow> string \<Rightarrow> string" where
  "posix_join a b =
     (if startswith b ''/'' then b
      else if a = [] \<or> endswith a ''/'' then a @ b
      else a @ ''/'' @ b)"

section \<open>os\_utils.py: the path resolver\<close>

text \<open>
  \<open>os_clean_path\<close>. A path holding a backslash goes through
  \<open>Path(PureWindowsPath(path))\<close> first. That conversion is pathlib's and differs between
  Python versions, so it is the parameter \<open>winconv\<close>; everything after it is the source's.
\<close>

definition os_clean_path :: "(string \<Rightarrow> string) \<Rightarrow> string \<Rightarrow> string" where
  "os_clean_path winconv path =
     (let p1 = (if CHR 0x5C \<in> set path then winconv path else path);
          p2 = normpath p1
      in if startswith p2 ''//'' then tl p2 else p2)"

text \<open>
  \<open>num_path_elems\<close>. The \<open>while\<close> loop has no bound in the source, so the model lets it
  diverge: \<open>None\<close> is a loop that never ends.
\<close>

partial_function (option) num_path_elems_loop :: "string \<Rightarrow> nat \<Rightarrow> nat option" where
  "num_path_elems_loop path count =
     (if path \<noteq> dirname path then num_path_elems_loop (dirname path) (count + 1)
      else Some count)"

declare num_path_elems_loop.simps [code]

definition num_path_elems :: "(string \<Rightarrow> string) \<Rightarrow> string \<Rightarrow> bool \<Rightarrow> nat option" where
  "num_path_elems winconv path clean_path_first =
     num_path_elems_loop (if clean_path_first then os_clean_path winconv path else path) 0"

text \<open>\<open>path_split\<close>: the loop \<open>for i in range(1, n_elem)\<close> runs \<open>n_elem - 1\<close> times.\<close>

fun path_split_loop :: "nat \<Rightarrow> string \<times> string \<Rightarrow> string \<times> string" where
  "path_split_loop 0 ht = ht"
| "path_split_loop (Suc k) (head, tail) =
     (let (head', dpath) = posix_split head
      in path_split_loop k (head', posix_join dpath tail))"

definition path_split :: "(string \<Rightarrow> string) \<Rightarrow> string \<Rightarrow> int \<Rightarrow> bool \<Rightarrow> string \<times> string" where
  "path_split winconv path n_elem clean_path_first =
     (let p = (if clean_path_first then os_clean_path winconv path else path)
      in if n_elem < 1 then (p, [])
         else path_split_loop (nat (n_elem - 1)) (posix_split p))"

text \<open>
  \<open>find_existing_composite_path\<close>. \<open>os.path.exists\<close> is the predicate \<open>ex\<close>, the state of
  the disk during the call. The result carries the lines printed.
\<close>

datatype search = Found string | NotFound

fun search_inner ::
  "(string \<Rightarrow> string) \<Rightarrow> (string \<Rightarrow> bool) \<Rightarrow> string \<Rightarrow> string \<Rightarrow> int list \<Rightarrow> search" where
  "search_inner winconv ex path_1 tail_2 [] = NotFound"
| "search_inner winconv ex path_1 tail_2 (i # is) =
     (let (head_1, tail_1) = path_split winconv path_1 i True;
          candidate_path = posix_join head_1 tail_2
      in if ex candidate_path then Found candidate_path
         else search_inner winconv ex path_1 tail_2 is)"

fun search_outer ::
  "(string \<Rightarrow> string) \<Rightarrow> (string \<Rightarrow> bool) \<Rightarrow> string \<Rightarrow> string \<Rightarrow> int list \<Rightarrow> search option" where
  "search_outer winconv ex path_1 path_2 [] = Some NotFound"
| "search_outer winconv ex path_1 path_2 (j # js) =
     (let (head_2, tail_2) = path_split winconv path_2 j True
      in case num_path_elems winconv path_1 True of
           None \<Rightarrow> None
         | Some n1 \<Rightarrow>
             (case search_inner winconv ex path_1 tail_2 [1..int n1] of
                Found c \<Rightarrow> Some (Found c)
              | NotFound \<Rightarrow> search_outer winconv ex path_1 path_2 js))"

definition find_existing_composite_path ::
  "(string \<Rightarrow> string) \<Rightarrow> (string \<Rightarrow> bool) \<Rightarrow> string \<Rightarrow> string \<Rightarrow> (string \<times> string list) option" where
  "find_existing_composite_path winconv ex p1 p2 =
     (let path_1 = os_clean_path winconv p1;
          path_2 = os_clean_path winconv p2
      in case num_path_elems winconv path_2 True of
           None \<Rightarrow> None
         | Some n2 \<Rightarrow>
             (case search_outer winconv ex path_1 path_2 [1..int n2] of
                None \<Rightarrow> None
              | Some (Found c) \<Rightarrow> Some (c, [])
              | Some NotFound \<Rightarrow>
                  Some (''None'',
                    [''WARNING find_existing_composite_path(): no existing composite path found for ''
                       @ path_1 @ '' and '' @ path_2])))"

section \<open>Termination of the element count\<close>

lemma rstrip_sep_take: "\<exists>k. rstrip_sep s = take k s"
proof -
  have "rstrip_sep s = rev (drop (length (takeWhile (\<lambda>c. c = CHR ''/'') (rev s))) (rev s))"
    unfolding rstrip_sep_def by (simp add: dropWhile_eq_drop)
  also have "\<dots> = take (length s - length (takeWhile (\<lambda>c. c = CHR ''/'') (rev s))) s"
    by (simp add: rev_drop)
  finally show ?thesis by blast
qed

lemma strip_head_take: "\<exists>k. strip_head h = take k h"
proof (cases "strip_head h = h")
  case True
  then have "strip_head h = take (length h) h" by simp
  then show ?thesis by blast
next
  case False
  then have "strip_head h = rstrip_sep h" unfolding strip_head_def by (simp split: if_splits)
  then show ?thesis using rstrip_sep_take by simp
qed

lemma dirname_take: "\<exists>k. dirname p = take k p"
proof -
  obtain k where "dirname p = take k (take (rfind_end p) p)"
    unfolding dirname_def using strip_head_take by blast
  then have "dirname p = take (min k (rfind_end p)) p" by simp
  then show ?thesis by blast
qed

lemma dirname_shorter: "dirname p \<noteq> p \<Longrightarrow> length (dirname p) < length p"
proof -
  assume ne: "dirname p \<noteq> p"
  obtain k where k: "dirname p = take k p" using dirname_take by blast
  have "k < length p"
  proof (rule ccontr)
    assume "\<not> k < length p"
    then have "take k p = p" by simp
    with k ne show False by simp
  qed
  with k show ?thesis by simp
qed

lemma num_path_elems_loop_total:
  "\<exists>n. num_path_elems_loop p c = Some n \<and> c \<le> n \<and> n \<le> c + length p"
proof (induction "length p" arbitrary: p c rule: less_induct)
  case less
  show ?case
  proof (cases "p = dirname p")
    case True
    then show ?thesis by (subst num_path_elems_loop.simps) simp
  next
    case False
    then have sh: "length (dirname p) < length p" using dirname_shorter by metis
    from less [OF sh, of "c + 1"] obtain n where
      n: "num_path_elems_loop (dirname p) (c + 1) = Some n" "c + 1 \<le> n" "n \<le> c + 1 + length (dirname p)"
      by blast
    have "num_path_elems_loop p c = Some n"
      using False n(1) by (subst num_path_elems_loop.simps) simp
    with n sh show ?thesis by auto
  qed
qed

lemma search_outer_total: "\<exists>r. search_outer w ex p1 p2 js = Some r"
proof (induction js)
  case Nil
  then show ?case by simp
next
  case (Cons j js)
  obtain n1 where n1: "num_path_elems w p1 True = Some n1"
    unfolding num_path_elems_def using num_path_elems_loop_total by blast
  show ?case using Cons n1 by (auto split: prod.splits search.splits)
qed

lemma find_existing_total: "\<exists>r. find_existing_composite_path w ex p1 p2 = Some r"
proof -
  obtain n2 where n2: "num_path_elems w (os_clean_path w p2) True = Some n2"
    unfolding num_path_elems_def using num_path_elems_loop_total by blast
  obtain r where r: "search_outer w ex (os_clean_path w p1) (os_clean_path w p2) [1..int n2] = Some r"
    using search_outer_total by blast
  show ?thesis unfolding find_existing_composite_path_def Let_def
    using n2 r by (cases r) auto
qed

text \<open>
  C10. \<open>dirname\<close> returns its argument or a strictly shorter string, so the loop of
  \<open>num_path_elems\<close> ends for every input, after at most as many steps as the path has
  characters; \<open>path_split\<close> loops over a fixed range, and the nested search of
  \<open>find_existing_composite_path\<close> over two such counts, so it returns for every pair
  of paths and every state of the disk.
\<close>

theorem num_path_elems_terminates:
  "(dirname p = p \<or> length (dirname p) < length p)
   \<and> (\<exists>n. num_path_elems w p c = Some n
          \<and> n \<le> length (if c then os_clean_path w p else p))
   \<and> (\<exists>r. find_existing_composite_path w ex p1 p2 = Some r)"
proof -
  have a: "dirname p = p \<or> length (dirname p) < length p"
    using dirname_shorter by blast
  have b: "\<exists>n. num_path_elems w p c = Some n \<and> n \<le> length (if c then os_clean_path w p else p)"
    unfolding num_path_elems_def
    using num_path_elems_loop_total [of "if c then os_clean_path w p else p" 0] by auto
  show ?thesis using a b find_existing_total by blast
qed

theorem num_path_elems_terminates_witness:
  "(\<exists>n. num_path_elems id ''/a/b/c'' True = Some n)
   \<and> (\<exists>r. find_existing_composite_path id (\<lambda>p. False) ''/a/b/c'' ''/x/y/c'' = Some r)"
  using num_path_elems_terminates
    [where p = "''/a/b/c''" and w = id and c = True and ex = "\<lambda>p. False"
       and ?p1.0 = "''/a/b/c''" and ?p2.0 = "''/x/y/c''"]
  by blast

end
